theory Spec2Isabelle
  imports Complex_Main "HOL-Library.AList"
begin

section \<open>Data model\<close>

text \<open>
  A thrown JavaScript error, with its name (\<^verbatim>\<open>Error\<close>, \<^verbatim>\<open>TypeError\<close>, \<dots>) and its
  message. Interpolating it into a template literal (\<^verbatim>\<open>`${error}`\<close>) calls
  \<^verbatim>\<open>Error.prototype.toString\<close>: the name, \<^verbatim>\<open>": "\<close> and the message, or the one of the two
  that is not empty.
\<close>

datatype jserror = JsError string string

fun error_to_string :: "jserror \<Rightarrow> string" where
  "error_to_string (JsError name message) =
     (if name = [] then message
      else if message = [] then name
      else name @ '': '' @ message)"

text \<open>
  Metadata values are of TypeScript type \<^verbatim>\<open>any\<close>; the primitive values are modelled.
  \<open>truthy\<close> is JavaScript's \<^verbatim>\<open>ToBoolean\<close> on them.
\<close>

datatype jsval = JNull | JBool bool | JNum int | JStr string

fun truthy :: "jsval \<Rightarrow> bool" where
  "truthy JNull = False"
| "truthy (JBool b) = b"
| "truthy (JNum n) = (n \<noteq> 0)"
| "truthy (JStr s) = (s \<noteq> [])"

text \<open>
  A LangChain \<^verbatim>\<open>Document\<close>: page content and a metadata object. A JavaScript object is
  an insertion-ordered collection of key/value pairs, hence an association list:
  \<open>map_of\<close> reads a property, \<open>AList.update\<close> writes one (in place when the key exists,
  appended otherwise).
\<close>

record Document =
  pageContent :: string
  metadata :: "(string \<times> jsval) list"

text \<open>
  A similarity score is a JavaScript number. A comparison with \<^verbatim>\<open>NaN\<close> is false.
\<close>

datatype number = NaN | Num real

fun js_lt :: "number \<Rightarrow> number \<Rightarrow> bool" where
  "js_lt (Num a) (Num b) = (a < b)"
| "js_lt _ _ = False"

fun js_ge :: "number \<Rightarrow> number \<Rightarrow> bool" where
  "js_ge (Num a) (Num b) = (a \<ge> b)"
| "js_ge _ _ = False"

text \<open>
  Everything a run does to the outside world, in the order it happens: lines handed
  to the logger and calls made on the vector store and the chat model.
\<close>

datatype event =
    Info string
  | Error string
  | Debug "(Document \<times> number) list"
  | AddDocuments "Document list"
  | SimilaritySearchWithScore string nat
  | Invoke string

fun addCalls :: "event list \<Rightarrow> Document list list" where
  "addCalls [] = []"
| "addCalls (AddDocuments b # tr) = b # addCalls tr"
| "addCalls (_ # tr) = addCalls tr"

fun invokeCalls :: "event list \<Rightarrow> string list" where
  "invokeCalls [] = []"
| "invokeCalls (Invoke p # tr) = p # invokeCalls tr"
| "invokeCalls (_ # tr) = invokeCalls tr"

section \<open>JavaScript primitives used by the code\<close>

text \<open>Decimal rendering of a number inside a template literal.\<close>

function decimal :: "nat \<Rightarrow> string" where
  "decimal n =
     (if n < 10 then [''0123456789'' ! n]
      else decimal (n div 10) @ [''0123456789'' ! (n mod 10)])"
  by pat_completeness auto
termination
  by (relation "measure id") auto

definition decimal_int :: "int \<Rightarrow> string" where
  "decimal_int i = (if 0 \<le> i then decimal (nat i) else CHR ''-'' # decimal (nat (- i)))"

text \<open>
  \<^verbatim>\<open>Array.prototype.slice(start, end)\<close>: a negative index counts from the end, both
  indices are clamped to the array, and an empty range gives the empty array.
\<close>

definition js_slice :: "'a list \<Rightarrow> int \<Rightarrow> int \<Rightarrow> 'a list" where
  "js_slice xs start end =
     (let len = int (length xs);
          k = (if start < 0 then max (len + start) 0 else min start len);
          final = (if end < 0 then max (len + end) 0 else min end len)
      in take (nat (final - k)) (drop (nat k) xs))"

text \<open>
  \<^verbatim>\<open>a || b\<close> on an optional number or boolean: the left operand when it is truthy
  (\<^verbatim>\<open>undefined\<close>, \<^verbatim>\<open>0\<close> and \<^verbatim>\<open>false\<close> are not), the right one otherwise.
\<close>

definition js_or_num :: "int option \<Rightarrow> int \<Rightarrow> int" where
  "js_or_num a b = (case a of Some n \<Rightarrow> if n \<noteq> 0 then n else b | None \<Rightarrow> b)"

definition js_or_bool :: "bool option \<Rightarrow> bool \<Rightarrow> bool" where
  "js_or_bool a b = (case a of Some v \<Rightarrow> if v then v else b | None \<Rightarrow> b)"

text \<open>
  \<^verbatim>\<open>a || b\<close> on a property that may be missing: a missing property reads as
  \<^verbatim>\<open>undefined\<close>, which is falsy.
\<close>

definition js_or :: "jsval option \<Rightarrow> jsval \<Rightarrow> jsval" where
  "js_or a b = (case a of Some v \<Rightarrow> if truthy v then v else b | None \<Rightarrow> b)"

text \<open>
  \<^verbatim>\<open>Array.prototype.join(sep)\<close> as the language defines it: a result string \<open>R\<close>,
  starting empty, receives the separator before every element but the first, then the
  element.
\<close>

fun joinLoop :: "string \<Rightarrow> string list \<Rightarrow> nat \<Rightarrow> string \<Rightarrow> string" where
  "joinLoop sep [] k R = R"
| "joinLoop sep (element # rest) k R =
     joinLoop sep rest (Suc k) ((if k > 0 then R @ sep else R) @ element)"

definition js_join :: "string \<Rightarrow> string list \<Rightarrow> string" where
  "js_join sep xs = joinLoop sep xs 0 []"

section \<open>The Indexer\<close>

text \<open>
  Modelled from the spec: the declaration of \<^verbatim>\<open>IndexerConfig\<close> (in \<^verbatim>\<open>../types\<close>) is not
  among the sources. The spec gives the configuration the fields \<^verbatim>\<open>chunkSize\<close>,
  \<^verbatim>\<open>chunkOverlap\<close>, \<^verbatim>\<open>enableLogging\<close> and \<^verbatim>\<open>batchSize\<close>, ``each field independently
  defaulted if unset'', and the constructor reads exactly these; so every field is
  optional. Numeric fields are modelled on the integers.
\<close>

record IndexerConfig =
  opt_chunkSize :: "int option"
  opt_chunkOverlap :: "int option"
  opt_enableLogging :: "bool option"
  opt_batchSize :: "int option"

text \<open>\<^verbatim>\<open>Required<IndexerConfig>\<close>, the resolved configuration held by an Indexer.\<close>

record RequiredIndexerConfig =
  chunkSize :: int
  chunkOverlap :: int
  enableLogging :: bool
  batchSize :: int

text \<open>
  The vector store is an external service with a state \<open>'s\<close> of its own. Its
  \<^verbatim>\<open>addDocuments\<close> takes a batch and the current state, and gives the state it leaves
  behind together with the error it raised, if any.
\<close>

type_synonym 's addDocuments = "Document list \<Rightarrow> 's \<Rightarrow> jserror option \<times> 's"

record 's Indexer =
  vectorStore :: "'s addDocuments option"
  config :: RequiredIndexerConfig

text \<open>The constructor: \<^verbatim>\<open>config?.field || default\<close> for each field.\<close>

definition Indexer_new :: "'s addDocuments option \<Rightarrow> IndexerConfig option \<Rightarrow> 's Indexer" where
  "Indexer_new vs cfg =
     \<lparr> vectorStore = vs,
       config = \<lparr> chunkSize = js_or_num (Option.bind cfg opt_chunkSize) 500,
                  chunkOverlap = js_or_num (Option.bind cfg opt_chunkOverlap) 100,
                  enableLogging = js_or_bool (Option.bind cfg opt_enableLogging) True,
                  batchSize = js_or_num (Option.bind cfg opt_batchSize) 10 \<rparr> \<rparr>"

definition log' :: "'s Indexer \<Rightarrow> string \<Rightarrow> event list" where
  "log' this message =
     (if enableLogging (config this) then [Info (''[Indexer] '' @ message)] else [])"

definition logError :: "'s Indexer \<Rightarrow> string \<Rightarrow> event list" where
  "logError this message =
     (if enableLogging (config this) then [Error (''[Indexer] '' @ message)] else [])"

text \<open>
  \<^verbatim>\<open>loadDocuments\<close>. The directory loader and its file parsers are external: \<open>load\<close>
  is what \<^verbatim>\<open>loader.load()\<close> gives for the folder, documents or a raised error. The
  object spread \<^verbatim>\<open>{...doc.metadata, loadedFrom: "local_folder", folderPath}\<close> copies the
  metadata and then writes the two properties.
\<close>

definition loadDocuments ::
  "'s Indexer \<Rightarrow> (string \<Rightarrow> jserror + Document list) \<Rightarrow> string
     \<Rightarrow> (jserror + Document list) \<times> event list"
where
  "loadDocuments this load folderPath =
     (case load folderPath of
        Inr documents \<Rightarrow>
          (let documents' =
                 map (\<lambda>doc. doc\<lparr>metadata :=
                        AList.update ''folderPath'' (JStr folderPath)
                          (AList.update ''loadedFrom'' (JStr ''local_folder'') (metadata doc))\<rparr>)
                     documents
           in (Inr documents',
               log' this (''Loaded '' @ decimal (length documents')
                            @ '' documents from folder: '' @ folderPath)))
      | Inl error \<Rightarrow>
          (Inl (JsError ''Error'' (''Failed to load documents for folder '' @ folderPath @ '': ''
                           @ error_to_string error)),
           logError this (''Error loading documents from '' @ folderPath @ '': ''
                            @ error_to_string error)))"

text \<open>
  The progress line of one batch:
  \<^verbatim>\<open>Processing batch ${Math.floor(i / batchSize) + 1}/${Math.ceil(chunks.length / batchSize)} (${batch.length} chunks)\<close>.
  On the integers \<open>div\<close> rounds down, and rounding up is rounding the negation down.
  A division by zero gives \<^verbatim>\<open>NaN\<close> or an infinity in JavaScript and is written out
  (the constructor never resolves the batch size to 0).
\<close>

definition processingMessage :: "int \<Rightarrow> Document list \<Rightarrow> int \<Rightarrow> Document list \<Rightarrow> string" where
  "processingMessage bs chunks i batch =
     ''Processing batch ''
       @ (if bs = 0 then (if i = 0 then ''NaN'' else if 0 < i then ''Infinity'' else ''-Infinity'')
          else decimal_int (i div bs + 1))
       @ ''/''
       @ (if bs = 0 then (if length chunks = 0 then ''NaN'' else ''Infinity'')
          else decimal_int (- ((- int (length chunks)) div bs)))
       @ '' ('' @ decimal (length batch) @ '' chunks)''"

text \<open>
  The batch loop of \<^verbatim>\<open>indexDocuments\<close>, from index \<open>i\<close>, with the events so far and
  the store's state. It returns the outcome (\<open>Inl\<close> the re-raised error), the events
  and the store's final state; \<open>None\<close> stands for a loop that never ends.
  \<^verbatim>\<open>this.vectorStore?.addDocuments(batch)\<close> makes no call when the store is absent.
\<close>

partial_function (option) indexLoop ::
  "'s Indexer \<Rightarrow> Document list \<Rightarrow> int \<Rightarrow> event list \<Rightarrow> 's \<Rightarrow> ((jserror + unit) \<times> event list \<times> 's) option"
where
  "indexLoop this chunks i tr s =
     (if i < int (length chunks) then
        (let batch = js_slice chunks i (i + batchSize (config this));
             tr1 = tr @ log' this (processingMessage (batchSize (config this)) chunks i batch)
         in (case vectorStore this of
               None \<Rightarrow> indexLoop this chunks (i + batchSize (config this)) tr1 s
             | Some add \<Rightarrow>
                 (case add batch s of
                    (Some error, s') \<Rightarrow>
                      Some (Inl error,
                            tr1 @ [AddDocuments batch]
                                @ log' this (''Error processing batch: '' @ error_to_string error),
                            s')
                  | (None, s') \<Rightarrow>
                      indexLoop this chunks (i + batchSize (config this))
                        (tr1 @ [AddDocuments batch]) s')))
      else Some (Inr (), tr, s))"

definition indexDocuments ::
  "'s Indexer \<Rightarrow> Document list \<Rightarrow> 's \<Rightarrow> ((jserror + unit) \<times> event list \<times> 's) option"
where
  "indexDocuments this chunks s =
     (if length chunks = 0 then Some (Inr (), log' this ''No chunks to save'', s)
      else
        (case indexLoop this chunks 0
                (log' this (''Saving '' @ decimal (length chunks) @ '' chunks to vector store...'')) s of
           Some (Inr u, tr, s') \<Rightarrow>
             Some (Inr u, tr @ log' this ''Successfully saved all chunks to vector store'', s')
         | r \<Rightarrow> r))"

section \<open>The query service\<close>

definition PROMPT_TEMPLATE :: string where
  "PROMPT_TEMPLATE =
     ''\<newline>Answer the question based only on the following context:\<newline>\<newline>{context}\<newline>\<newline>---\<newline>\<newline>Answer the question based on the above context: {question}\<newline>''"

text \<open>
  The template renderer \<^verbatim>\<open>ChatPromptTemplate.fromTemplate(t).format(values)\<close> belongs to
  the LangChain library, not to the repository, and \<open>queryDatabase\<close> below takes it as a
  parameter. To say which prompt a run sends, what the library's call does is written
  out here. The template is an f-string: \<^verbatim>\<open>{{\<close> and \<^verbatim>\<open>}}\<close> stand for one brace,
  \<^verbatim>\<open>{name}\<close> for the value bound to \<open>name\<close> (the name runs to the next closing brace),
  every other character for itself; an inserted value is not scanned again. The
  scanner carries the placeholder name collected so far (\<open>None\<close> outside a placeholder).
  \<^verbatim>\<open>format\<close> of a chat prompt template gives its messages as text; the one message
  made from a template string is a human message, printed as \<^verbatim>\<open>Human: \<close> and the rendered
  template. The wording of the library's own error messages is not part of any
  property below.
\<close>

datatype ParsedFStringNode = Literal string | Variable string

fun scanFString :: "string option \<Rightarrow> string \<Rightarrow> jserror + ParsedFStringNode list" where
  "scanFString None [] = Inr []"
| "scanFString (Some name) [] = Inl (JsError ''Error'' ''Unclosed '{' in template.'')"
| "scanFString None (c # cs) =
     (if c = CHR ''{'' then
        (case cs of
           [] \<Rightarrow> scanFString (Some []) cs
         | c' # cs' \<Rightarrow>
             if c' = CHR ''{'' then map_sum id ((#) (Literal ''{'')) (scanFString None cs')
             else scanFString (Some []) cs)
      else if c = CHR ''}'' then
        (case cs of
           [] \<Rightarrow> Inl (JsError ''Error'' ''Single '}' in template.'')
         | c' # cs' \<Rightarrow>
             if c' = CHR ''}'' then map_sum id ((#) (Literal ''}'')) (scanFString None cs')
             else Inl (JsError ''Error'' ''Single '}' in template.''))
      else map_sum id ((#) (Literal [c])) (scanFString None cs))"
| "scanFString (Some name) (c # cs) =
     (if c = CHR ''}'' then map_sum id ((#) (Variable name)) (scanFString None cs)
      else scanFString (Some (name @ [c])) cs)"

definition parseFString :: "string \<Rightarrow> jserror + ParsedFStringNode list" where
  "parseFString template = scanFString None template"

fun interpolate :: "(string \<times> string) list \<Rightarrow> ParsedFStringNode list \<Rightarrow> jserror + string" where
  "interpolate vals [] = Inr []"
| "interpolate vals (Literal text # nodes) = map_sum id ((@) text) (interpolate vals nodes)"
| "interpolate vals (Variable name # nodes) =
     (case map_of vals name of
        None \<Rightarrow> Inl (JsError ''Error'' (''(f-string) Missing value for input '' @ name))
      | Some v \<Rightarrow> map_sum id ((@) v) (interpolate vals nodes))"

definition interpolateFString :: "string \<Rightarrow> (string \<times> string) list \<Rightarrow> jserror + string" where
  "interpolateFString template vals =
     (case parseFString template of
        Inl error \<Rightarrow> Inl error
      | Inr nodes \<Rightarrow> interpolate vals nodes)"

definition ChatPromptTemplate_format :: "string \<Rightarrow> (string \<times> string) list \<Rightarrow> jserror + string" where
  "ChatPromptTemplate_format template vals =
     map_sum id ((@) ''Human: '') (interpolateFString template vals)"

record QueryResult =
  response :: string
  sources :: "jsval list"

text \<open>
  \<^verbatim>\<open>const contextText = results.map(([doc, _score]) => doc.pageContent).join("\n\n---\n\n")\<close>
\<close>

definition contextText :: "(Document \<times> number) list \<Rightarrow> string" where
  "contextText results =
     js_join ''\<newline>\<newline>---\<newline>\<newline>'' (map (\<lambda>(doc, score). pageContent doc) results)"

text \<open>
  \<^verbatim>\<open>queryDatabase\<close>. The vector store's search, the template renderer
  (\<^verbatim>\<open>ChatPromptTemplate.fromTemplate(t).format(values)\<close>), the chat model's \<^verbatim>\<open>invoke\<close> and
  \<^verbatim>\<open>JSON.stringify\<close> are external and are parameters; the first three may raise, and an
  error raised by any of them leaves the function at once. The result is the returned
  value (\<open>None\<close> for \<^verbatim>\<open>null\<close>) or the raised error, with the events of the run.
  In the score test, \<^verbatim>\<open>results[0]\<close> of an empty array is \<^verbatim>\<open>undefined\<close>, which is falsy.
\<close>

definition queryDatabase ::
  "(string \<Rightarrow> nat \<Rightarrow> jserror + (Document \<times> number) list)
     \<Rightarrow> (string \<Rightarrow> (string \<times> string) list \<Rightarrow> jserror + string)
     \<Rightarrow> (string \<Rightarrow> jserror + string)
     \<Rightarrow> (jsval list \<Rightarrow> string) \<Rightarrow> string \<Rightarrow> (jserror + QueryResult option) \<times> event list"
where
  "queryDatabase similaritySearchWithScore format invoke stringify queryText =
     (case similaritySearchWithScore queryText 5 of
        Inl error \<Rightarrow> (Inl error, [SimilaritySearchWithScore queryText 5])
      | Inr results \<Rightarrow>
          (let tr = [SimilaritySearchWithScore queryText 5, Debug results] in
           if length results = 0
              \<or> (case results of [] \<Rightarrow> False | r0 # _ \<Rightarrow> js_lt (snd r0) (Num (6 / 10)))
           then (Inr None, tr @ [Error ''Unable to find matching results.''])
           else
             (case format PROMPT_TEMPLATE
                     [(''context'', contextText results), (''question'', queryText)] of
                Inl error \<Rightarrow> (Inl error, tr)
              | Inr prompt \<Rightarrow>
                  (case invoke prompt of
                     Inl error \<Rightarrow> (Inl error, tr @ [Invoke prompt])
                   | Inr responseText \<Rightarrow>
                       (let sources =
                              map (\<lambda>(doc, score). js_or (map_of (metadata doc) ''source'') JNull)
                                  results;
                            formattedResponse =
                              ''Response: '' @ responseText @ ''\<newline>Sources: ''
                                @ stringify sources
                        in (Inr (Some \<lparr> response = responseText, sources = sources \<rparr>),
                            tr @ [Invoke prompt, Info formattedResponse]))))))"

section \<open>Notions used to state the properties\<close>

text \<open>
  The \<open>k\<close>-th batch of the loop (counting from 0), which starts at index \<open>k * batchSize\<close>;
  the events of the \<open>k\<close>-th turn of the loop, without and with a vector store; and the
  store's state after a sequence of add-documents calls, each made on the state the
  previous one left.
\<close>

definition batchAt :: "'s Indexer \<Rightarrow> Document list \<Rightarrow> nat \<Rightarrow> Document list" where
  "batchAt this chunks k =
     js_slice chunks (int k * batchSize (config this))
       (int k * batchSize (config this) + batchSize (config this))"

definition batchProgress :: "'s Indexer \<Rightarrow> Document list \<Rightarrow> nat \<Rightarrow> event list" where
  "batchProgress this chunks k =
     log' this (processingMessage (batchSize (config this)) chunks
                  (int k * batchSize (config this)) (batchAt this chunks k))"

definition batchEvents :: "'s Indexer \<Rightarrow> Document list \<Rightarrow> nat \<Rightarrow> event list" where
  "batchEvents this chunks k = batchProgress this chunks k @ [AddDocuments (batchAt this chunks k)]"

definition storeAfter :: "'s addDocuments \<Rightarrow> Document list list \<Rightarrow> 's \<Rightarrow> 's" where
  "storeAfter add bs s = foldl (\<lambda>s b. snd (add b s)) s bs"

text \<open>An Indexer whose store, when it has one, raises no error on any call.\<close>

definition neverFails :: "'s Indexer \<Rightarrow> bool" where
  "neverFails this =
     (case vectorStore this of None \<Rightarrow> True | Some add \<Rightarrow> \<forall>b s. fst (add b s) = None)"

text \<open>
  The spec's wording of the context string: the contents in order, with the delimiter
  between each two neighbours.
\<close>

fun separated :: "string \<Rightarrow> string list \<Rightarrow> string" where
  "separated sep [] = []"
| "separated sep [x] = x"
| "separated sep (x # y # ys) = x @ sep @ separated sep (y # ys)"


definition spec_prompt :: "string \<Rightarrow> string \<Rightarrow> string" where
  "spec_prompt context question =
     ''Answer the question based only on the following context:\<newline>\<newline>'' @ context
       @ ''\<newline>\<newline>---\<newline>\<newline>Answer the question based on the above context: '' @ question"

section \<open>Sample stores and documents\<close>

text \<open>
  A store that keeps every batch, a store that refuses a batch that would take it over
  a capacity, a chunk with a source, and a configuration that sets the batch size only.
\<close>

definition memoryStore :: "Document list addDocuments" where
  "memoryStore batch s = (None, s @ batch)"

definition failingStore :: "nat \<Rightarrow> Document list addDocuments" where
  "failingStore limit batch s =
     (if limit < length s + length batch then (Some (JsError ''Error'' ''store full''), s)
      else (None, s @ batch))"

definition chunk :: "string \<Rightarrow> Document" where
  "chunk c = \<lparr> pageContent = c, metadata = [(''source'', JStr (c @ ''.txt''))] \<rparr>"

definition onlyBatchSize :: "int \<Rightarrow> IndexerConfig" where
  "onlyBatchSize b = \<lparr> opt_chunkSize = None, opt_chunkOverlap = None, opt_enableLogging = None,
                       opt_batchSize = Some b \<rparr>"

section \<open>Properties of the constructor and of the logging switch\<close>

text \<open>
  Claim C9. Whatever configuration the constructor receives (none, one without
  \<^verbatim>\<open>enableLogging\<close>, one setting it to \<^verbatim>\<open>true\<close> or to \<^verbatim>\<open>false\<close>), the resolved
  \<^verbatim>\<open>enableLogging\<close> is \<^verbatim>\<open>true\<close>, so \<^verbatim>\<open>log\<close> (here \<open>log'\<close>) and \<^verbatim>\<open>logError\<close> of the constructed
  Indexer always hand their line to the logger.
\<close>

theorem enableLogging_always_true:
  "enableLogging (config (Indexer_new vs cfg)) = True
   \<and> enableLogging (config (Indexer_new vs (Some (c\<lparr>opt_enableLogging := Some False\<rparr>)))) = True
   \<and> log' (Indexer_new vs cfg) message = [Info (''[Indexer] '' @ message)]
   \<and> logError (Indexer_new vs cfg) message = [Error (''[Indexer] '' @ message)]"
  by (cases cfg) (simp_all add: Indexer_new_def js_or_bool_def log'_def logError_def split: option.splits)

section \<open>The batch loop, one turn at a time\<close>

lemma indexLoop_exit:
  "\<not> i < int (length chunks) \<Longrightarrow> indexLoop this chunks i tr s = Some (Inr (), tr, s)"
  by (subst indexLoop.simps) simp

lemma indexLoop_ok:
  assumes "i < int (length chunks)" "vectorStore this = Some add"
    and "add (js_slice chunks i (i + batchSize (config this))) s = (None, s')"
  shows "indexLoop this chunks i tr s =
         indexLoop this chunks (i + batchSize (config this))
           (tr @ log' this (processingMessage (batchSize (config this)) chunks i (js_slice chunks i (i + batchSize (config this))))
               @ [AddDocuments (js_slice chunks i (i + batchSize (config this)))]) s'"
  using assms by (subst indexLoop.simps) (simp add: Let_def)

lemma indexLoop_fail:
  assumes "i < int (length chunks)" "vectorStore this = Some add"
    and "add (js_slice chunks i (i + batchSize (config this))) s = (Some e, s')"
  shows "indexLoop this chunks i tr s =
         Some (Inl e,
           tr @ log' this (processingMessage (batchSize (config this)) chunks i (js_slice chunks i (i + batchSize (config this))))
               @ [AddDocuments (js_slice chunks i (i + batchSize (config this)))]
               @ log' this (''Error processing batch: '' @ error_to_string e), s')"
  using assms by (subst indexLoop.simps) (simp add: Let_def)

lemma indexLoop_absent:
  assumes "i < int (length chunks)" "vectorStore this = None"
  shows "indexLoop this chunks i tr s =
         indexLoop this chunks (i + batchSize (config this))
           (tr @ log' this (processingMessage (batchSize (config this)) chunks i (js_slice chunks i (i + batchSize (config this))))) s"
  using assms by (subst indexLoop.simps) (simp add: Let_def)

lemma storeAfter_snoc: "storeAfter add (bs @ [b]) s = snd (add b (storeAfter add bs s))"
  by (simp add: storeAfter_def)

lemma indexLoop_prefix:
  assumes vs: "vectorStore this = Some add"
    and reach: "\<forall>j<m. int j * batchSize (config this) < int (length chunks)"
    and ok: "\<forall>j<m. fst (add (batchAt this chunks j) (storeAfter add (map (batchAt this chunks) [0..<j]) s)) = None"
  shows "indexLoop this chunks 0 tr s =
         indexLoop this chunks (int m * batchSize (config this))
           (tr @ concat (map (batchEvents this chunks) [0..<m]))
           (storeAfter add (map (batchAt this chunks) [0..<m]) s)"
  using reach ok
proof (induction m)
  case 0
  show ?case by (simp add: storeAfter_def)
next
  case (Suc m)
  let ?B = "batchSize (config this)"
  let ?S = "storeAfter add (map (batchAt this chunks) [0..<m]) s"
  have lt: "int m * ?B < int (length chunks)" using Suc.prems(1) by simp
  have okm: "fst (add (batchAt this chunks m) ?S) = None" using Suc.prems(2) by simp
  then have step: "add (js_slice chunks (int m * ?B) (int m * ?B + ?B)) ?S
                   = (None, snd (add (batchAt this chunks m) ?S))"
    by (simp add: batchAt_def prod_eq_iff)
  have "indexLoop this chunks 0 tr s =
        indexLoop this chunks (int m * ?B) (tr @ concat (map (batchEvents this chunks) [0..<m])) ?S"
    using Suc by simp
  also have "\<dots> = indexLoop this chunks (int (Suc m) * ?B)
           (tr @ concat (map (batchEvents this chunks) [0..<Suc m]))
           (storeAfter add (map (batchAt this chunks) [0..<Suc m]) s)"
    by (subst indexLoop_ok [OF lt vs step])
       (simp add: batchEvents_def batchProgress_def batchAt_def storeAfter_snoc algebra_simps)
  finally show ?case .
qed

lemma indexLoop_prefix_absent:
  assumes vs: "vectorStore this = None"
    and reach: "\<forall>j<m. int j * batchSize (config this) < int (length chunks)"
  shows "indexLoop this chunks 0 tr s =
         indexLoop this chunks (int m * batchSize (config this))
           (tr @ concat (map (batchProgress this chunks) [0..<m])) s"
  using reach
proof (induction m)
  case 0
  show ?case by simp
next
  case (Suc m)
  let ?B = "batchSize (config this)"
  have lt: "int m * ?B < int (length chunks)" using Suc.prems by simp
  have "indexLoop this chunks 0 tr s =
        indexLoop this chunks (int m * ?B) (tr @ concat (map (batchProgress this chunks) [0..<m])) s"
    using Suc by simp
  also have "\<dots> = indexLoop this chunks (int (Suc m) * ?B)
           (tr @ concat (map (batchProgress this chunks) [0..<Suc m])) s"
    by (subst indexLoop_absent [OF lt vs])
       (simp add: batchProgress_def batchAt_def algebra_simps)
  finally show ?case .
qed

lemma addCalls_append: "addCalls (xs @ ys) = addCalls xs @ addCalls ys"
  by (induction xs rule: addCalls.induct) simp_all

lemma addCalls_log': "addCalls (log' this m) = []"
  by (simp add: log'_def)

lemma addCalls_batchEvents: "addCalls (batchEvents this chunks k) = [batchAt this chunks k]"
  by (simp add: batchEvents_def batchProgress_def addCalls_append addCalls_log')

lemma addCalls_batchProgress: "addCalls (batchProgress this chunks k) = []"
  by (simp add: batchProgress_def addCalls_log')

lemma addCalls_concat_batchEvents:
  "addCalls (concat (map (batchEvents this chunks) ks)) = map (batchAt this chunks) ks"
  by (induction ks) (simp_all add: addCalls_append addCalls_batchEvents)

lemma addCalls_concat_batchProgress:
  "addCalls (concat (map (batchProgress this chunks) ks)) = []"
  by (induction ks) (simp_all add: addCalls_append addCalls_batchProgress)

lemma batch_count_reach:
  assumes "0 < B" "int j < \<lceil>real N / real_of_int B\<rceil>"
  shows "int j * B < int N"
proof -
  have "real j < real N / real_of_int B" using assms(2) by (simp add: less_ceiling_iff)
  then have "real j * real_of_int B < real N" using assms(1) by (simp add: pos_less_divide_eq)
  then have "real_of_int (int j * B) < real_of_int (int N)" by simp
  then show ?thesis by (simp only: of_int_less_iff)
qed

lemma batch_count_nonneg:
  assumes "0 < B"
  shows "0 \<le> \<lceil>real N / real_of_int B\<rceil>"
proof -
  have "0 \<le> real N / real_of_int B" using assms by simp
  then have "- 1 < real N / real_of_int B" by linarith
  then show ?thesis by (simp only: zero_le_ceiling)
qed

lemma batch_count_exit:
  assumes "0 < B"
  shows "int N \<le> \<lceil>real N / real_of_int B\<rceil> * B"
proof -
  have pos: "0 < real_of_int B" using assms by simp
  have "real N / real_of_int B \<le> real_of_int \<lceil>real N / real_of_int B\<rceil>" by (rule le_of_int_ceiling)
  then have "real N \<le> real_of_int \<lceil>real N / real_of_int B\<rceil> * real_of_int B"
    by (simp only: pos_divide_le_eq [OF pos])
  then have "real_of_int (int N) \<le> real_of_int (\<lceil>real N / real_of_int B\<rceil> * B)" by simp
  then show ?thesis by (simp only: of_int_le_iff)
qed

lemma js_slice_nonneg:
  assumes "0 \<le> a" "a \<le> b"
  shows "js_slice xs a b = take (nat (b - a)) (drop (nat a) xs)"
proof -
  consider "b \<le> int (length xs)" | "a \<le> int (length xs)" "int (length xs) < b" | "int (length xs) < a"
    by linarith
  then show ?thesis
  proof cases
    case 1
    then show ?thesis using assms by (simp add: js_slice_def Let_def)
  next
    case 2
    then have "js_slice xs a b = take (nat (int (length xs) - a)) (drop (nat a) xs)"
      using assms by (simp add: js_slice_def Let_def)
    also have "\<dots> = drop (nat a) xs" using assms 2 by simp
    also have "\<dots> = take (nat (b - a)) (drop (nat a) xs)" using assms 2 by simp
    finally show ?thesis .
  next
    case 3
    then have "js_slice xs a b = []" using assms by (simp add: js_slice_def Let_def)
    moreover have "drop (nat a) xs = []" using 3 by simp
    ultimately show ?thesis by simp
  qed
qed

lemma js_slice_batch:
  assumes "0 < B"
  shows "js_slice xs (int k * B) (int k * B + B) = take (nat B) (drop (k * nat B) xs)"
proof -
  have k: "nat (int k * B) = k * nat B" using assms by (simp add: nat_mult_distrib)
  have "js_slice xs (int k * B) (int k * B + B)
        = take (nat (int k * B + B - int k * B)) (drop (nat (int k * B)) xs)"
    using assms by (intro js_slice_nonneg) simp_all
  then show ?thesis by (simp add: k)
qed

lemma concat_batches:
  "concat (map (\<lambda>k. take b (drop (k * b) xs)) [0..<n]) = take (n * b) xs"
proof (induction n)
  case 0 show ?case by simp
next
  case (Suc n)
  have "take (n * b) xs @ take b (drop (n * b) xs) = take (n * b + b) xs"
    by (simp add: take_add)
  with Suc show ?case by (simp add: add.commute)
qed

lemma log'_new: "log' (Indexer_new vs cfg) m = [Info (''[Indexer] '' @ m)]"
  by (cases cfg) (simp_all add: Indexer_new_def js_or_bool_def log'_def split: option.splits)

lemma vectorStore_new: "vectorStore (Indexer_new vs cfg) = vs"
  by (simp add: Indexer_new_def)

lemma batchAt_pos:
  "0 < batchSize (config this) \<Longrightarrow>
   batchAt this chunks k = take (nat (batchSize (config this))) (drop (k * nat (batchSize (config this))) chunks)"
  by (simp add: batchAt_def js_slice_batch)

lemma indexLoop_returns_only_if:
  assumes "indexLoop this chunks i tr s = Some y"
  shows "\<not> (batchSize (config this) \<le> 0 \<and> i < int (length chunks) \<and> neverFails this)"
proof (rule indexLoop.raw_induct [OF _ assms], goal_cases)
  case (1 loop this chunks i tr s y)
  show ?case
  proof
    assume c: "batchSize (config this) \<le> 0 \<and> i < int (length chunks) \<and> neverFails this"
    then have next_lt: "i + batchSize (config this) < int (length chunks)" by simp
    show False
    proof (cases "vectorStore this")
      case None
      with 1(2) c obtain tr1 where "loop this chunks (i + batchSize (config this)) tr1 s = Some y"
        by (simp add: Let_def)
      from 1(1) [OF this] have "\<not> (batchSize (config this) \<le> 0 \<and> i + batchSize (config this) < int (length chunks) \<and> neverFails this)" .
      with c next_lt show False by blast
    next
      case (Some add)
      let ?batch = "js_slice chunks i (i + batchSize (config this))"
      have "fst (add ?batch s) = None" using c Some by (simp add: neverFails_def)
      then obtain s' where a: "add ?batch s = (None, s')"
        by (cases "add ?batch s") simp
      with 1(2) c Some obtain tr1 where "loop this chunks (i + batchSize (config this)) tr1 s' = Some y"
        by (simp add: Let_def)
      from 1(1) [OF this] have "\<not> (batchSize (config this) \<le> 0 \<and> i + batchSize (config this) < int (length chunks) \<and> neverFails this)" .
      with c next_lt show False by blast
    qed
  qed
qed

lemma indexLoop_diverges:
  "batchSize (config this) \<le> 0 \<Longrightarrow> i < int (length chunks) \<Longrightarrow> neverFails this
   \<Longrightarrow> indexLoop this chunks i tr s = None"
  using indexLoop_returns_only_if [of this chunks i tr s] by (cases "indexLoop this chunks i tr s") auto

lemma indexDocuments_diverges:
  "batchSize (config this) \<le> 0 \<Longrightarrow> chunks \<noteq> [] \<Longrightarrow> neverFails this
   \<Longrightarrow> indexDocuments this chunks s = None"
  by (simp add: indexDocuments_def indexLoop_diverges)

lemma memoryStore_apply: "memoryStore batch s = (None, s @ batch)"
  by (simp add: memoryStore_def)

lemma cfg_batchSize [simp]:
  "batchSize (config (Indexer_new vs (Some (onlyBatchSize b)))) = (if b \<noteq> 0 then b else 10)"
  by (simp add: Indexer_new_def onlyBatchSize_def js_or_num_def)

section \<open>Properties of \<^verbatim>\<open>indexDocuments\<close>\<close>

text \<open>
  Claim C7. Given an empty list of chunks, \<^verbatim>\<open>indexDocuments\<close> of any constructed Indexer
  returns normally: it raises no error, its only event is the log line
  \<^verbatim>\<open>No chunks to save\<close>, so it makes no add-documents call, and the store's state is
  untouched.
\<close>

theorem indexDocuments_empty:
  "indexDocuments (Indexer_new vs cfg) [] s = Some (Inr (), [Info ''[Indexer] No chunks to save''], s)
   \<and> addCalls [Info ''[Indexer] No chunks to save''] = []"
  by (simp add: indexDocuments_def log'_new)

text \<open>
  Claim C3. Let the add-documents calls for batches \<open>0, \<dots>, k - 1\<close> succeed and the call
  for batch \<open>k\<close> raise \<open>e\<close> (batch \<open>k\<close> being reached by the loop). Then
  \<^verbatim>\<open>indexDocuments\<close> logs the error and re-raises \<open>e\<close> at once: the last events are the
  failing call and the line \<^verbatim>\<open>Error processing batch: \<dots>\<close>; exactly \<open>k + 1\<close> add-documents
  calls were made, those for batches \<open>0, \<dots>, k\<close>, and none for a later batch. The store
  is left in the state \<open>s'\<close> in which the failing call left it, on top of what the
  \<open>k\<close> successful calls had committed: nothing is rolled back.
\<close>

theorem indexDocuments_batch_failure:
  assumes new: "this = Indexer_new (Some add) cfg"
    and reach: "\<forall>j\<le>k. int j * batchSize (config this) < int (length chunks)"
    and ok: "\<forall>j<k. fst (add (batchAt this chunks j)
                         (storeAfter add (map (batchAt this chunks) [0..<j]) s)) = None"
    and fail: "add (batchAt this chunks k)
                 (storeAfter add (map (batchAt this chunks) [0..<k]) s) = (Some e, s')"
  shows "\<exists>tr. indexDocuments this chunks s = Some (Inl e, tr, s')
            \<and> tr = Info (''[Indexer] Saving '' @ decimal (length chunks) @ '' chunks to vector store...'')
                   # concat (map (batchEvents this chunks) [0..<k])
                   @ batchEvents this chunks k
                   @ [Info (''[Indexer] Error processing batch: '' @ error_to_string e)]
            \<and> addCalls tr = map (batchAt this chunks) [0..<Suc k]
            \<and> length (addCalls tr) = Suc k"
proof -
  let ?B = "batchSize (config this)"
  let ?start = "log' this (''Saving '' @ decimal (length chunks) @ '' chunks to vector store...'')"
  let ?S = "storeAfter add (map (batchAt this chunks) [0..<k]) s"
  have vs: "vectorStore this = Some add" using new by (simp add: vectorStore_new)
  have lg: "\<And>m. log' this m = [Info (''[Indexer] '' @ m)]" using new by (simp add: log'_new)
  have lt: "int k * ?B < int (length chunks)" using reach by simp
  have "int 0 * ?B < int (length chunks)" using reach by blast
  then have ne: "length chunks \<noteq> 0" by simp
  have reach': "\<forall>j<k. int j * ?B < int (length chunks)" using reach by simp
  have fail': "add (js_slice chunks (int k * ?B) (int k * ?B + ?B)) ?S = (Some e, s')"
    using fail by (simp add: batchAt_def)
  have "indexLoop this chunks 0 ?start s
        = indexLoop this chunks (int k * ?B) (?start @ concat (map (batchEvents this chunks) [0..<k])) ?S"
    by (rule indexLoop_prefix [OF vs reach' ok])
  also have "\<dots> = Some (Inl e,
        (?start @ concat (map (batchEvents this chunks) [0..<k])) @ batchEvents this chunks k
           @ log' this (''Error processing batch: '' @ error_to_string e), s')"
    by (subst indexLoop_fail [OF lt vs fail'])
       (simp add: batchEvents_def batchProgress_def batchAt_def)
  finally have loop: "indexLoop this chunks 0 ?start s = Some (Inl e,
        (?start @ concat (map (batchEvents this chunks) [0..<k])) @ batchEvents this chunks k
           @ log' this (''Error processing batch: '' @ error_to_string e), s')" .
  have res: "indexDocuments this chunks s = Some (Inl e,
        (?start @ concat (map (batchEvents this chunks) [0..<k])) @ batchEvents this chunks k
           @ log' this (''Error processing batch: '' @ error_to_string e), s')"
    using ne unfolding indexDocuments_def loop by simp
  show ?thesis
    unfolding res lg by (simp add: addCalls_append addCalls_concat_batchEvents addCalls_batchEvents)
qed

text \<open>
  An instance of C3: five chunks in batches of two, on a store with room for two
  documents. The second call fails, the third batch is never sent, and the store keeps
  the first batch.
\<close>

theorem indexDocuments_batch_failure_witness:
  "indexDocuments (Indexer_new (Some (failingStore 2)) (Some (onlyBatchSize 2)))
     [chunk ''a'', chunk ''b'', chunk ''c'', chunk ''d'', chunk ''e''] []
   = Some (Inl (JsError ''Error'' ''store full''),
           [Info ''[Indexer] Saving 5 chunks to vector store...'',
            Info ''[Indexer] Processing batch 1/3 (2 chunks)'',
            AddDocuments [chunk ''a'', chunk ''b''],
            Info ''[Indexer] Processing batch 2/3 (2 chunks)'',
            AddDocuments [chunk ''c'', chunk ''d''],
            Info ''[Indexer] Error processing batch: Error: store full''],
           [chunk ''a'', chunk ''b''])"
proof -
  let ?ix = "Indexer_new (Some (failingStore 2)) (Some (onlyBatchSize 2))"
  let ?chunks = "[chunk ''a'', chunk ''b'', chunk ''c'', chunk ''d'', chunk ''e'']"
  have b0: "batchAt ?ix ?chunks 0 = [chunk ''a'', chunk ''b'']"
    by (simp add: batchAt_def js_slice_def)
  have b1: "batchAt ?ix ?chunks (Suc 0) = [chunk ''c'', chunk ''d'']"
    by (simp add: batchAt_def js_slice_def)
  have reach: "\<forall>j\<le>Suc 0. int j * batchSize (config ?ix) < int (length ?chunks)"
    by (simp add: le_Suc_eq)
  have ok: "\<forall>j<Suc 0. fst (failingStore 2 (batchAt ?ix ?chunks j)
              (storeAfter (failingStore 2) (map (batchAt ?ix ?chunks) [0..<j]) [])) = None"
    by (simp add: b0 storeAfter_def failingStore_def)
  have fail: "failingStore 2 (batchAt ?ix ?chunks (Suc 0))
               (storeAfter (failingStore 2) (map (batchAt ?ix ?chunks) [0..<Suc 0]) [])
              = (Some (JsError ''Error'' ''store full''), [chunk ''a'', chunk ''b''])"
    by (simp add: b0 b1 storeAfter_def failingStore_def)
  from indexDocuments_batch_failure [OF refl reach ok fail]
  show ?thesis
    by (simp add: batchEvents_def batchProgress_def b0 b1 log'_new processingMessage_def decimal_int_def)
qed

text \<open>
  Claim C2 as stated, for every configured batch size, fails: the constructor accepts
  a negative batch size, and then the loop index never reaches the length of the list.
  With batch size \<open>-1\<close> and one chunk the run never returns; after two turns of the
  loop, at index \<open>-2\<close>, it has made two add-documents calls, each with an empty batch,
  and goes on.
\<close>

theorem negative_batchSize_never_returns:
  "indexDocuments (Indexer_new (Some memoryStore) (Some (onlyBatchSize (- 1)))) [chunk ''a''] [] = None
   \<and> indexLoop (Indexer_new (Some memoryStore) (Some (onlyBatchSize (- 1)))) [chunk ''a''] 0 [] []
     = indexLoop (Indexer_new (Some memoryStore) (Some (onlyBatchSize (- 1)))) [chunk ''a''] (- 2)
         [Info ''[Indexer] Processing batch 1/-1 (0 chunks)'', AddDocuments [],
          Info ''[Indexer] Processing batch 2/-1 (0 chunks)'', AddDocuments []] []"
proof
  show "indexDocuments (Indexer_new (Some memoryStore) (Some (onlyBatchSize (- 1)))) [chunk ''a''] [] = None"
    by (rule indexDocuments_diverges)
       (simp_all add: Indexer_new_def onlyBatchSize_def js_or_num_def neverFails_def memoryStore_def)
next
  let ?ix = "Indexer_new (Some memoryStore) (Some (onlyBatchSize (- 1)))"
  have vs: "vectorStore ?ix = Some memoryStore" by (simp add: vectorStore_new)
  have b: "batchAt ?ix [chunk ''a''] j = []" for j
    by (simp add: batchAt_def js_slice_def Let_def)
  have reach: "\<forall>j<2. int j * batchSize (config ?ix) < int (length [chunk ''a''])" by simp
  have ok: "\<forall>j<2. fst (memoryStore (batchAt ?ix [chunk ''a''] j)
              (storeAfter memoryStore (map (batchAt ?ix [chunk ''a'']) [0..<j]) [])) = None"
    by (simp add: memoryStore_apply)
  have S: "storeAfter memoryStore [[], []] [] = []" by (simp add: storeAfter_def memoryStore_apply)
  have two: "[0..<2] = [0, Suc 0]" by (simp add: upt_rec)
  show "indexLoop ?ix [chunk ''a''] 0 [] []
     = indexLoop ?ix [chunk ''a''] (- 2)
         [Info ''[Indexer] Processing batch 1/-1 (0 chunks)'', AddDocuments [],
          Info ''[Indexer] Processing batch 2/-1 (0 chunks)'', AddDocuments []] []"
    unfolding indexLoop_prefix [OF vs reach ok, of "[]"]
    by (simp add: two batchEvents_def batchProgress_def b log'_new processingMessage_def
          decimal_int_def S)
qed

text \<open>
  Claim C2, amended. For every non-empty list of \<open>N\<close> chunks and every positive batch size
  \<open>B\<close>, on an Indexer with a vector store whose calls succeed, \<^verbatim>\<open>indexDocuments\<close>
  returns normally after exactly \<open>\<lceil>N / B\<rceil>\<close> add-documents calls; call \<open>k\<close> (from 0)
  receives the chunks from index \<open>k * B\<close> on, at most \<open>B\<close> of them and exactly \<open>B\<close>
  unless it is the last call; the batches, in the order of the calls, concatenate to the
  chunk list; and each call is made on the store's state left by the previous one.
\<close>

theorem indexDocuments_batches:
  assumes new: "this = Indexer_new (Some add) cfg"
    and B: "B = batchSize (config this)" and pos: "0 < B"
    and ne: "chunks \<noteq> []"
    and n: "n = nat \<lceil>real (length chunks) / real_of_int B\<rceil>"
    and ok: "\<forall>j<n. fst (add (batchAt this chunks j)
                         (storeAfter add (map (batchAt this chunks) [0..<j]) s)) = None"
  shows "\<exists>tr s'. indexDocuments this chunks s = Some (Inr (), tr, s')
            \<and> tr = Info (''[Indexer] Saving '' @ decimal (length chunks) @ '' chunks to vector store...'')
                   # concat (map (batchEvents this chunks) [0..<n])
                   @ [Info ''[Indexer] Successfully saved all chunks to vector store'']
            \<and> length (addCalls tr) = n
            \<and> (\<forall>k<n. addCalls tr ! k = take (nat B) (drop (k * nat B) chunks)
                       \<and> length (addCalls tr ! k) \<le> nat B
                       \<and> (Suc k < n \<longrightarrow> length (addCalls tr ! k) = nat B))
            \<and> concat (addCalls tr) = chunks
            \<and> s' = storeAfter add (addCalls tr) s"
proof -
  let ?N = "length chunks"
  let ?start = "log' this (''Saving '' @ decimal ?N @ '' chunks to vector store...'')"
  let ?tr = "?start @ concat (map (batchEvents this chunks) [0..<n])"
  let ?S = "storeAfter add (map (batchAt this chunks) [0..<n]) s"
  let ?fin = "log' this ''Successfully saved all chunks to vector store''"
  have vs: "vectorStore this = Some add" using new by (simp add: vectorStore_new)
  have lg: "\<And>m. log' this m = [Info (''[Indexer] '' @ m)]" using new by (simp add: log'_new)
  have cpos: "0 \<le> \<lceil>real ?N / real_of_int B\<rceil>" by (rule batch_count_nonneg [OF pos])
  have reach: "\<forall>j<n. int j * batchSize (config this) < int ?N"
  proof (intro allI impI)
    fix j assume "j < n"
    then have "int j < \<lceil>real ?N / real_of_int B\<rceil>" using n cpos by linarith
    then show "int j * batchSize (config this) < int ?N"
      using batch_count_reach [OF pos] B by simp
  qed
  have exit: "\<not> int n * batchSize (config this) < int ?N"
    using batch_count_exit [OF pos, of ?N] n cpos B by simp
  have "indexLoop this chunks 0 ?start s = indexLoop this chunks (int n * batchSize (config this)) ?tr ?S"
    by (rule indexLoop_prefix [OF vs reach ok])
  also have "\<dots> = Some (Inr (), ?tr, ?S)" by (rule indexLoop_exit [OF exit])
  finally have loop: "indexLoop this chunks 0 ?start s = Some (Inr (), ?tr, ?S)" .
  have res: "indexDocuments this chunks s = Some (Inr (), ?tr @ ?fin, ?S)"
    using ne unfolding indexDocuments_def loop by simp
  have calls: "addCalls (?tr @ ?fin) = map (batchAt this chunks) [0..<n]"
    by (simp add: addCalls_append addCalls_log' addCalls_concat_batchEvents)
  have bat: "\<And>k. batchAt this chunks k = take (nat B) (drop (k * nat B) chunks)"
    using batchAt_pos [of this chunks] pos B by simp
  have full: "length (take (nat B) (drop (k * nat B) chunks)) = nat B" if "Suc k < n" for k
  proof -
    have "int (Suc k) * B < int ?N" using reach that B by blast
    then have "int (k * nat B + nat B) < int ?N" using pos by (simp add: algebra_simps)
    then have "k * nat B + nat B < ?N" by (simp only: of_nat_less_iff)
    then show ?thesis by simp
  qed
  have cover: "?N \<le> n * nat B"
  proof -
    have "int ?N \<le> int n * B" using exit B by simp
    also have "\<dots> = int (n * nat B)" using pos by simp
    finally show ?thesis by (simp only: of_nat_le_iff)
  qed
  have cat: "concat (map (batchAt this chunks) [0..<n]) = chunks"
  proof -
    have "map (batchAt this chunks) [0..<n] = map (\<lambda>k. take (nat B) (drop (k * nat B) chunks)) [0..<n]"
      using bat by simp
    then have "concat (map (batchAt this chunks) [0..<n]) = take (n * nat B) chunks"
      by (simp only: concat_batches)
    then show ?thesis using cover by simp
  qed
  show ?thesis
  proof (intro exI conjI)
    show "indexDocuments this chunks s = Some (Inr (), ?tr @ ?fin, ?S)" by (rule res)
    show "?tr @ ?fin = Info (''[Indexer] Saving '' @ decimal (length chunks) @ '' chunks to vector store...'')
                   # concat (map (batchEvents this chunks) [0..<n])
                   @ [Info ''[Indexer] Successfully saved all chunks to vector store'']"
      unfolding lg by simp
    show "length (addCalls (?tr @ ?fin)) = n" unfolding calls by simp
    show "\<forall>k<n. addCalls (?tr @ ?fin) ! k = take (nat B) (drop (k * nat B) chunks)
                  \<and> length (addCalls (?tr @ ?fin) ! k) \<le> nat B
                  \<and> (Suc k < n \<longrightarrow> length (addCalls (?tr @ ?fin) ! k) = nat B)"
      unfolding calls using bat full by simp
    show "concat (addCalls (?tr @ ?fin)) = chunks" unfolding calls by (rule cat)
    show "?S = storeAfter add (addCalls (?tr @ ?fin)) s" unfolding calls by simp
  qed
qed

text \<open>An instance of C2: three chunks in batches of two make two calls.\<close>

theorem indexDocuments_batches_witness:
  "indexDocuments (Indexer_new (Some memoryStore) (Some (onlyBatchSize 2)))
     [chunk ''a'', chunk ''b'', chunk ''c''] []
   = Some (Inr (),
           [Info ''[Indexer] Saving 3 chunks to vector store...'',
            Info ''[Indexer] Processing batch 1/2 (2 chunks)'',
            AddDocuments [chunk ''a'', chunk ''b''],
            Info ''[Indexer] Processing batch 2/2 (1 chunks)'',
            AddDocuments [chunk ''c''],
            Info ''[Indexer] Successfully saved all chunks to vector store''],
           [chunk ''a'', chunk ''b'', chunk ''c''])"
proof -
  let ?ix = "Indexer_new (Some memoryStore) (Some (onlyBatchSize 2))"
  let ?chunks = "[chunk ''a'', chunk ''b'', chunk ''c'']"
  have b0: "batchAt ?ix ?chunks 0 = [chunk ''a'', chunk ''b'']"
    by (simp add: batchAt_def js_slice_def)
  have b1: "batchAt ?ix ?chunks (Suc 0) = [chunk ''c'']"
    by (simp add: batchAt_def js_slice_def)
  have B: "(2::int) = batchSize (config ?ix)" by simp
  have n: "Suc (Suc 0) = nat \<lceil>real (length ?chunks) / real_of_int 2\<rceil>" by simp
  have ok: "\<forall>j<Suc (Suc 0). fst (memoryStore (batchAt ?ix ?chunks j)
              (storeAfter memoryStore (map (batchAt ?ix ?chunks) [0..<j]) [])) = None"
    by (simp add: memoryStore_apply)
  have pos: "0 < (2::int)" by simp
  have ne: "?chunks \<noteq> []" by simp
  have S: "storeAfter memoryStore [[chunk ''a'', chunk ''b''], [chunk ''c'']] [] = ?chunks"
    by (simp add: storeAfter_def memoryStore_apply)
  from indexDocuments_batches [OF refl B pos ne n ok]
  show ?thesis
    by (simp add: batchEvents_def batchProgress_def b0 b1 log'_new processingMessage_def
          decimal_int_def S)
qed

text \<open>
  Claim C10 as stated, for every Indexer constructed without a vector store, fails for
  the same reason: with a negative batch size the run never returns.
\<close>

theorem without_store_negative_batchSize_never_returns:
  "indexDocuments (Indexer_new None (Some (onlyBatchSize (- 1)))) [chunk ''a''] () = None"
  by (rule indexDocuments_diverges)
     (simp_all add: Indexer_new_def onlyBatchSize_def js_or_num_def neverFails_def)

text \<open>
  Claim C10, amended. If the Indexer is constructed without a vector store and its batch
  size is a positive integer (as the default 10 is), then for every non-empty list of chunks
  \<^verbatim>\<open>indexDocuments\<close> makes no add-documents call, returns normally, leaves the store's
  state as it was, and ends by logging that all chunks were saved.
\<close>

theorem indexDocuments_without_store:
  assumes new: "this = Indexer_new None cfg"
    and pos: "0 < batchSize (config this)"
    and ne: "chunks \<noteq> []"
  shows "\<exists>tr. indexDocuments this chunks s = Some (Inr (), tr, s)
            \<and> tr = Info (''[Indexer] Saving '' @ decimal (length chunks) @ '' chunks to vector store...'')
                   # concat (map (batchProgress this chunks)
                               [0..<nat \<lceil>real (length chunks) / real_of_int (batchSize (config this))\<rceil>])
                   @ [Info ''[Indexer] Successfully saved all chunks to vector store'']
            \<and> addCalls tr = []
            \<and> last tr = Info ''[Indexer] Successfully saved all chunks to vector store''"
proof -
  let ?N = "length chunks"
  let ?B = "batchSize (config this)"
  let ?n = "nat \<lceil>real ?N / real_of_int ?B\<rceil>"
  let ?start = "log' this (''Saving '' @ decimal ?N @ '' chunks to vector store...'')"
  let ?tr = "?start @ concat (map (batchProgress this chunks) [0..<?n])"
  let ?fin = "log' this ''Successfully saved all chunks to vector store''"
  have vs: "vectorStore this = None" using new by (simp add: vectorStore_new)
  have lg: "\<And>m. log' this m = [Info (''[Indexer] '' @ m)]" using new by (simp add: log'_new)
  have cpos: "0 \<le> \<lceil>real ?N / real_of_int ?B\<rceil>" by (rule batch_count_nonneg [OF pos])
  have reach: "\<forall>j<?n. int j * ?B < int ?N"
  proof (intro allI impI)
    fix j assume "j < ?n"
    then have "int j < \<lceil>real ?N / real_of_int ?B\<rceil>" using cpos by linarith
    then show "int j * ?B < int ?N" using batch_count_reach [OF pos] by simp
  qed
  have exit: "\<not> int ?n * ?B < int ?N"
    using batch_count_exit [OF pos, of ?N] cpos by simp
  have "indexLoop this chunks 0 ?start s = indexLoop this chunks (int ?n * ?B) ?tr s"
    by (rule indexLoop_prefix_absent [OF vs reach])
  also have "\<dots> = Some (Inr (), ?tr, s)" by (rule indexLoop_exit [OF exit])
  finally have loop: "indexLoop this chunks 0 ?start s = Some (Inr (), ?tr, s)" .
  have res: "indexDocuments this chunks s = Some (Inr (), ?tr @ ?fin, s)"
    using ne unfolding indexDocuments_def loop by simp
  have calls: "addCalls (?tr @ ?fin) = []"
    by (simp add: addCalls_append addCalls_log' addCalls_concat_batchProgress)
  have lst: "last (?tr @ ?fin) = Info ''[Indexer] Successfully saved all chunks to vector store''"
    unfolding lg by simp
  have shape: "?tr @ ?fin = Info (''[Indexer] Saving '' @ decimal (length chunks) @ '' chunks to vector store...'')
                   # concat (map (batchProgress this chunks) [0..<?n])
                   @ [Info ''[Indexer] Successfully saved all chunks to vector store'']"
    unfolding lg by simp
  show ?thesis using res shape calls lst by blast
qed

text \<open>An instance of C10: the default configuration and three chunks.\<close>

theorem indexDocuments_without_store_witness:
  "indexDocuments (Indexer_new None None) [chunk ''a'', chunk ''b'', chunk ''c''] ()
   = Some (Inr (),
           [Info ''[Indexer] Saving 3 chunks to vector store...'',
            Info ''[Indexer] Processing batch 1/1 (3 chunks)'',
            Info ''[Indexer] Successfully saved all chunks to vector store''],
           ())"
proof -
  let ?ix = "Indexer_new None None :: unit Indexer"
  let ?chunks = "[chunk ''a'', chunk ''b'', chunk ''c'']"
  have B: "batchSize (config ?ix) = 10" by (simp add: Indexer_new_def js_or_num_def)
  have b0: "batchAt ?ix ?chunks 0 = ?chunks"
    by (simp add: batchAt_def js_slice_def B)
  have n: "nat \<lceil>real (length ?chunks) / real_of_int (batchSize (config ?ix))\<rceil> = Suc 0"
    unfolding B by simp
  have pos: "0 < batchSize (config ?ix)" unfolding B by simp
  from indexDocuments_without_store [OF refl pos, of ?chunks "()"]
  show ?thesis
    unfolding n
    by (simp add: batchProgress_def b0 B log'_new processingMessage_def decimal_int_def)
qed

section \<open>Properties of \<^verbatim>\<open>loadDocuments\<close>\<close>

lemma map_of_spread:
  "map_of (AList.update ''folderPath'' fp (AList.update ''loadedFrom'' lf m))
   = (map_of m)(''loadedFrom'' \<mapsto> lf, ''folderPath'' \<mapsto> fp)"
  by (simp add: update_conv')

text \<open>
  Claim C8. When \<^verbatim>\<open>loadDocuments(folderPath)\<close> returns documents, they are the loader's
  documents, one for one and with the same content; the metadata of each has
  \<^verbatim>\<open>loadedFrom\<close> equal to \<^verbatim>\<open>"local_folder"\<close> and \<^verbatim>\<open>folderPath\<close> equal to the argument; and
  every other key reads as it did in the loader's document, so no key the parser
  produced is removed, and none but those two is overwritten.
\<close>

theorem loadDocuments_metadata:
  assumes "loadDocuments this load folderPath = (Inr docs, tr)"
  shows "\<exists>raw. load folderPath = Inr raw \<and> length docs = length raw
           \<and> (\<forall>i<length docs.
                  pageContent (docs ! i) = pageContent (raw ! i)
                \<and> map_of (metadata (docs ! i)) ''loadedFrom'' = Some (JStr ''local_folder'')
                \<and> map_of (metadata (docs ! i)) ''folderPath'' = Some (JStr folderPath)
                \<and> (\<forall>key. key \<noteq> ''loadedFrom'' \<longrightarrow> key \<noteq> ''folderPath'' \<longrightarrow>
                       map_of (metadata (docs ! i)) key = map_of (metadata (raw ! i)) key))"
proof (cases "load folderPath")
  case (Inl e)
  with assms show ?thesis by (simp add: loadDocuments_def)
next
  case (Inr raw)
  with assms have docs: "docs = map (\<lambda>doc. doc\<lparr>metadata :=
                        AList.update ''folderPath'' (JStr folderPath)
                          (AList.update ''loadedFrom'' (JStr ''local_folder'') (metadata doc))\<rparr>) raw"
    by (simp add: loadDocuments_def Let_def)
  show ?thesis
  proof (intro exI conjI)
    show "load folderPath = Inr raw" by (rule Inr)
    show "length docs = length raw" by (simp add: docs)
    show "\<forall>i<length docs.
                  pageContent (docs ! i) = pageContent (raw ! i)
                \<and> map_of (metadata (docs ! i)) ''loadedFrom'' = Some (JStr ''local_folder'')
                \<and> map_of (metadata (docs ! i)) ''folderPath'' = Some (JStr folderPath)
                \<and> (\<forall>key. key \<noteq> ''loadedFrom'' \<longrightarrow> key \<noteq> ''folderPath'' \<longrightarrow>
                       map_of (metadata (docs ! i)) key = map_of (metadata (raw ! i)) key)"
      by (simp add: docs map_of_spread)
  qed
qed

text \<open>
  An instance of C8: a document with a source, and one whose parser had set
  \<^verbatim>\<open>loadedFrom\<close> itself.
\<close>

theorem loadDocuments_metadata_witness:
  "loadDocuments (Indexer_new None None :: unit Indexer)
     (\<lambda>path. Inr [chunk ''a'', \<lparr>pageContent = ''b'', metadata = [(''loadedFrom'', JStr ''s3''), (''page'', JNum 2)]\<rparr>])
     ''./data''
   = (Inr [\<lparr>pageContent = ''a'',
             metadata = [(''source'', JStr ''a.txt''), (''loadedFrom'', JStr ''local_folder''),
                         (''folderPath'', JStr ''./data'')]\<rparr>,
           \<lparr>pageContent = ''b'',
             metadata = [(''loadedFrom'', JStr ''local_folder''), (''page'', JNum 2),
                         (''folderPath'', JStr ''./data'')]\<rparr>],
      [Info ''[Indexer] Loaded 2 documents from folder: ./data''])
   \<and> map_of [(''source'', JStr ''a.txt''), (''loadedFrom'', JStr ''local_folder''),
              (''folderPath'', JStr ''./data'')] ''source'' = Some (JStr ''a.txt'')"
proof -
  let ?load = "\<lambda>path :: string. Inr [chunk ''a'', \<lparr>pageContent = ''b'', metadata = [(''loadedFrom'', JStr ''s3''), (''page'', JNum 2)]\<rparr>] :: jserror + Document list"
  have run: "loadDocuments (Indexer_new None None :: unit Indexer) ?load ''./data''
   = (Inr [\<lparr>pageContent = ''a'',
             metadata = [(''source'', JStr ''a.txt''), (''loadedFrom'', JStr ''local_folder''),
                         (''folderPath'', JStr ''./data'')]\<rparr>,
           \<lparr>pageContent = ''b'',
             metadata = [(''loadedFrom'', JStr ''local_folder''), (''page'', JNum 2),
                         (''folderPath'', JStr ''./data'')]\<rparr>],
      [Info ''[Indexer] Loaded 2 documents from folder: ./data''])"
    by (simp add: loadDocuments_def chunk_def log'_new)
  from loadDocuments_metadata [OF run]
  have "map_of [(''source'', JStr ''a.txt''), (''loadedFrom'', JStr ''local_folder''),
              (''folderPath'', JStr ''./data'')] ''source'' = map_of (metadata (chunk ''a'')) ''source''"
    by (auto simp add: chunk_def)
  then show ?thesis using run by (simp add: chunk_def)
qed

section \<open>Properties of \<^verbatim>\<open>queryDatabase\<close>\<close>

text \<open>
  The library's renderer turns the code's template into \<^verbatim>\<open>Human: \<close>, a line break, the
  spec's text and a line break; on the template as the spec prints it, the f-string
  replacement gives the spec's text.
\<close>

lemma ChatPromptTemplate_format_PROMPT_TEMPLATE:
  "ChatPromptTemplate_format PROMPT_TEMPLATE [(''context'', c), (''question'', q)]
   = Inr (''Human: '' @ ''\<newline>'' @ spec_prompt c q @ ''\<newline>'')"
  by (simp add: ChatPromptTemplate_format_def interpolateFString_def parseFString_def
        PROMPT_TEMPLATE_def spec_prompt_def)


lemma joinLoop_started:
  "0 < k \<Longrightarrow> joinLoop sep xs k R = R @ concat (map ((@) sep) xs)"
  by (induction xs arbitrary: k R) simp_all

lemma separated_Cons: "separated sep (x # xs) = x @ concat (map ((@) sep) xs)"
  by (induction xs arbitrary: x) simp_all

lemma js_join_separated: "js_join sep xs = separated sep xs"
proof (cases xs)
  case Nil
  then show ?thesis by (simp add: js_join_def)
next
  case (Cons x rest)
  then show ?thesis by (simp add: js_join_def joinLoop_started separated_Cons)
qed

lemma contextText_separated:
  "contextText rs
   = separated ''\<newline>\<newline>---\<newline>\<newline>'' (map (\<lambda>r. pageContent (fst r)) rs)"
  by (simp add: contextText_def js_join_separated case_prod_unfold)

lemma threshold_passed:
  assumes "results \<noteq> []" "\<not> js_lt (snd (hd results)) (Num (6 / 10))"
  shows "\<not> (length results = 0
            \<or> (case results of [] \<Rightarrow> False | r0 # _ \<Rightarrow> js_lt (snd r0) (Num (6 / 10))))"
  using assms by (cases results) simp_all

text \<open>
  A run that gets past the score test, for any renderer: the renderer receives the
  code's template with the context string and the query text, and what it returns is
  given to the chat model as it is.
\<close>

lemma queryDatabase_passed:
  assumes "similaritySearchWithScore queryText 5 = Inr results"
    and "results \<noteq> []" "\<not> js_lt (snd (hd results)) (Num (6 / 10))"
    and "format PROMPT_TEMPLATE [(''context'', contextText results), (''question'', queryText)]
         = Inr prompt"
  shows "queryDatabase similaritySearchWithScore format invoke stringify queryText =
         (let tr = [SimilaritySearchWithScore queryText 5, Debug results]
          in case invoke prompt of
               Inl error \<Rightarrow> (Inl error, tr @ [Invoke prompt])
             | Inr responseText \<Rightarrow>
                 (let sources = map (\<lambda>(doc, score). js_or (map_of (metadata doc) ''source'') JNull) results
                  in (Inr (Some \<lparr> response = responseText, sources = sources \<rparr>),
                      tr @ [Invoke prompt,
                            Info (''Response: '' @ responseText @ ''\<newline>Sources: '' @ stringify sources)])))"
  using threshold_passed [OF assms(2,3)]
  by (simp add: queryDatabase_def assms(1) assms(4) Let_def split: sum.splits)

lemma invokeCalls_passed:
  assumes "similaritySearchWithScore queryText 5 = Inr results"
    and "results \<noteq> []" "\<not> js_lt (snd (hd results)) (Num (6 / 10))"
  shows "invokeCalls (snd (queryDatabase similaritySearchWithScore format invoke stringify queryText))
         = (case format PROMPT_TEMPLATE
                   [(''context'', contextText results), (''question'', queryText)] of
              Inl error \<Rightarrow> []
            | Inr prompt \<Rightarrow> [prompt])"
proof (cases "format PROMPT_TEMPLATE [(''context'', contextText results), (''question'', queryText)]")
  case (Inl error)
  then show ?thesis
    using threshold_passed [OF assms(2,3)] by (simp add: queryDatabase_def assms(1))
next
  case (Inr prompt)
  show ?thesis
    unfolding queryDatabase_passed [of similaritySearchWithScore queryText results format prompt,
                                    OF assms Inr]
    by (simp add: Inr Let_def split: sum.splits)
qed

lemma js_ge_not_lt: "js_ge a b \<Longrightarrow> \<not> js_lt a b"
  by (cases a; cases b) simp_all

text \<open>
  Claim C1. For every query, if the similarity search returns no result, or the score of
  its first result is strictly below 0.6, then \<^verbatim>\<open>queryDatabase\<close> logs the error
  \<^verbatim>\<open>Unable to find matching results.\<close> and returns \<^verbatim>\<open>null\<close>, and the chat model is not
  invoked in that run. Only the first score is looked at: the results after the first
  are arbitrary here.
\<close>

theorem queryDatabase_no_match:
  assumes "similaritySearchWithScore queryText 5 = Inr results"
    and "results = [] \<or> (\<exists>d sc rest. results = (d, sc) # rest \<and> js_lt sc (Num (6 / 10)))"
  shows "queryDatabase similaritySearchWithScore format invoke stringify queryText
         = (Inr None, [SimilaritySearchWithScore queryText 5, Debug results,
                       Error ''Unable to find matching results.''])
         \<and> invokeCalls (snd (queryDatabase similaritySearchWithScore format invoke stringify queryText)) = []"
  using assms by (auto simp add: queryDatabase_def)

text \<open>
  An instance of C1: a first score of 0.59 ends the run with \<^verbatim>\<open>null\<close> although the second result
  scores 0.9.
\<close>

theorem queryDatabase_no_match_witness:
  "queryDatabase (\<lambda>q k. Inr [(chunk ''A'', Num (59 / 100)), (chunk ''B'', Num (9 / 10))])
     ChatPromptTemplate_format (\<lambda>p. Inr ''fine'') (\<lambda>s. ''[]'') ''Q''
   = (Inr None, [SimilaritySearchWithScore ''Q'' 5,
                 Debug [(chunk ''A'', Num (59 / 100)), (chunk ''B'', Num (9 / 10))],
                 Error ''Unable to find matching results.''])"
proof -
  have s: "(\<lambda>q k. Inr [(chunk ''A'', Num (59 / 100)), (chunk ''B'', Num (9 / 10))]
              :: jserror + (Document \<times> number) list) ''Q'' 5
           = Inr [(chunk ''A'', Num (59 / 100)), (chunk ''B'', Num (9 / 10))]" by simp
  have g: "[(chunk ''A'', Num (59 / 100)), (chunk ''B'', Num (9 / 10))] = []
           \<or> (\<exists>d sc rest. [(chunk ''A'', Num (59 / 100)), (chunk ''B'', Num (9 / 10))] = (d, sc) # rest
                  \<and> js_lt sc (Num (6 / 10)))" by simp
  from queryDatabase_no_match [of "\<lambda>q k. Inr [(chunk ''A'', Num (59 / 100)), (chunk ''B'', Num (9 / 10))]" "''Q''"
         "[(chunk ''A'', Num (59 / 100)), (chunk ''B'', Num (9 / 10))]", OF s g]
  show ?thesis by simp
qed

text \<open>
  Claim C4 as stated fails: \<^verbatim>\<open>doc.metadata.source || null\<close> gives \<^verbatim>\<open>null\<close> for every falsy
  source, not only for a missing one. A candidate whose source is the empty string is
  listed as \<^verbatim>\<open>null\<close>.
\<close>

theorem empty_source_listed_as_null:
  "fst (queryDatabase
          (\<lambda>q k. Inr [(\<lparr>pageContent = ''A'', metadata = [(''source'', JStr [])]\<rparr>, Num (9 / 10))])
          ChatPromptTemplate_format (\<lambda>p. Inr ''fine'') (\<lambda>s. ''[]'') ''Q'')
   = Inr (Some \<lparr>response = ''fine'', sources = [JNull]\<rparr>)
   \<and> map_of (metadata \<lparr>pageContent = ''A'', metadata = [(''source'', JStr [])]\<rparr>) ''source''
       = Some (JStr [])"
  by (simp add: queryDatabase_def ChatPromptTemplate_format_PROMPT_TEMPLATE js_or_def)

text \<open>
  Claim C4, amended. For every query whose first result scores at least 0.6 (0.6
  included), when the chat model answers, \<^verbatim>\<open>queryDatabase\<close> returns a result that is not
  \<^verbatim>\<open>null\<close>; its sources list is as long as the list of candidates and, position by
  position, holds the candidate's \<^verbatim>\<open>metadata.source\<close> when that is truthy, and \<^verbatim>\<open>null\<close>
  when it is missing or falsy (empty string, 0, false, null).
\<close>

theorem queryDatabase_sources:
  assumes search: "similaritySearchWithScore queryText 5 = Inr results"
    and top: "results = (d, sc) # rest" "js_ge sc (Num (6 / 10))"
    and chat: "\<forall>p. invoke p = Inr (answer p)"
  shows "\<exists>r. fst (queryDatabase similaritySearchWithScore ChatPromptTemplate_format invoke stringify
                   queryText) = Inr (Some r)
            \<and> length (sources r) = length results
            \<and> (\<forall>i<length results.
                   sources r ! i =
                     (case map_of (metadata (fst (results ! i))) ''source'' of
                        None \<Rightarrow> JNull
                      | Some v \<Rightarrow> if truthy v then v else JNull))"
proof -
  have ne: "results \<noteq> []" using top(1) by simp
  have passed: "\<not> js_lt (snd (hd results)) (Num (6 / 10))"
    using top by (simp add: js_ge_not_lt)
  let ?sources = "map (\<lambda>(doc, score). js_or (map_of (metadata doc) ''source'') JNull) results"
  let ?prompt = "''Human: '' @ ''\<newline>'' @ spec_prompt (contextText results) queryText @ ''\<newline>''"
  have run: "fst (queryDatabase similaritySearchWithScore ChatPromptTemplate_format invoke stringify
                    queryText)
             = Inr (Some \<lparr>response = answer ?prompt, sources = ?sources\<rparr>)"
    unfolding queryDatabase_passed [of similaritySearchWithScore queryText results
                ChatPromptTemplate_format ?prompt, OF search ne passed
                ChatPromptTemplate_format_PROMPT_TEMPLATE]
    by (simp add: chat Let_def)
  have each: "\<forall>i<length results. ?sources ! i =
                (case map_of (metadata (fst (results ! i))) ''source'' of
                   None \<Rightarrow> JNull | Some v \<Rightarrow> if truthy v then v else JNull)"
    by (simp add: js_or_def case_prod_unfold)
  show ?thesis using run each by simp
qed

text \<open>
  An instance of C4: a first score of exactly 0.6, a candidate without a source and a
  candidate whose source is 0.
\<close>

theorem queryDatabase_sources_witness:
  "\<exists>r. fst (queryDatabase
          (\<lambda>q k. Inr [(chunk ''A'', Num (6 / 10)),
                       (\<lparr>pageContent = ''B'', metadata = []\<rparr>, Num (3 / 10)),
                       (\<lparr>pageContent = ''C'', metadata = [(''source'', JNum 0)]\<rparr>, Num (2 / 10))])
          ChatPromptTemplate_format (\<lambda>p. Inr ''fine'') (\<lambda>s. ''[]'') ''Q'') = Inr (Some r)
       \<and> length (sources r) = 3
       \<and> sources r ! 0 = JStr ''A.txt'' \<and> sources r ! 1 = JNull \<and> sources r ! 2 = JNull"
proof -
  let ?results = "[(chunk ''A'', Num (6 / 10)),
                   (\<lparr>pageContent = ''B'', metadata = []\<rparr>, Num (3 / 10)),
                   (\<lparr>pageContent = ''C'', metadata = [(''source'', JNum 0)]\<rparr>, Num (2 / 10))]"
  let ?search = "\<lambda>(q :: string) (k :: nat). Inr ?results :: jserror + (Document \<times> number) list"
  let ?invoke = "\<lambda>p :: string. Inr ''fine'' :: jserror + string"
  let ?stringify = "\<lambda>s :: jsval list. ''[]''"
  have s: "?search ''Q'' 5 = Inr ?results" by simp
  have top: "?results = (chunk ''A'', Num (6 / 10)) # tl ?results" by simp
  have ge: "js_ge (Num (6 / 10)) (Num (6 / 10))" by simp
  have chat: "\<forall>p. ?invoke p = Inr ((\<lambda>p. ''fine'') p)" by simp
  from queryDatabase_sources [of ?search "''Q''" ?results "chunk ''A''" "Num (6 / 10)" "tl ?results"
         ?invoke "\<lambda>p. ''fine''" ?stringify, OF s top ge chat]
  obtain r where r: "fst (queryDatabase ?search ChatPromptTemplate_format ?invoke ?stringify ''Q'')
                     = Inr (Some r)"
    and len: "length (sources r) = length ?results"
    and each: "\<forall>i<length ?results. sources r ! i =
                 (case map_of (metadata (fst (?results ! i))) ''source'' of
                    None \<Rightarrow> JNull | Some v \<Rightarrow> if truthy v then v else JNull)"
    by blast
  have s0: "sources r ! 0 = JStr ''A.txt''" using each [rule_format, of 0] by (simp add: chunk_def)
  have s1: "sources r ! 1 = JNull" using each [rule_format, of 1] by simp
  have s2: "sources r ! 2 = JNull" using each [rule_format, of 2] by simp
  show ?thesis using r len s0 s1 s2 by (intro exI [of _ r]) simp
qed

text \<open>
  Claim C5. Whenever the score test lets the query through, the context string is the
  contents of all the returned candidates, in retrieval order, with \<^verbatim>\<open>"\n\n---\n\n"\<close>
  between neighbours, whatever the scores of the candidates after the first; it is this
  string that stands in the prompt given to the chat model; and for two candidates with
  contents \<^verbatim>\<open>A\<close> and \<^verbatim>\<open>B\<close> it is \<^verbatim>\<open>"A\n\n---\n\nB"\<close>.
\<close>

theorem context_joins_all_candidates:
  assumes "similaritySearchWithScore queryText 5 = Inr results"
    and "results \<noteq> []" "\<not> js_lt (snd (hd results)) (Num (6 / 10))"
  shows "contextText results
           = separated ''\<newline>\<newline>---\<newline>\<newline>'' (map (\<lambda>r. pageContent (fst r)) results)
         \<and> invokeCalls (snd (queryDatabase similaritySearchWithScore ChatPromptTemplate_format
                                invoke stringify queryText))
           = [''Human: '' @ ''\<newline>'' @ spec_prompt
                 (separated ''\<newline>\<newline>---\<newline>\<newline>'' (map (\<lambda>r. pageContent (fst r)) results))
                 queryText @ ''\<newline>'']
         \<and> contextText [(\<lparr>pageContent = ''A'', metadata = ma\<rparr>, sa), (\<lparr>pageContent = ''B'', metadata = mb\<rparr>, sb)]
           = ''A\<newline>\<newline>---\<newline>\<newline>B''"
proof (intro conjI)
  show "contextText results
           = separated ''\<newline>\<newline>---\<newline>\<newline>'' (map (\<lambda>r. pageContent (fst r)) results)"
    by (rule contextText_separated)
  show "invokeCalls (snd (queryDatabase similaritySearchWithScore ChatPromptTemplate_format
                                invoke stringify queryText))
           = [''Human: '' @ ''\<newline>'' @ spec_prompt
                 (separated ''\<newline>\<newline>---\<newline>\<newline>'' (map (\<lambda>r. pageContent (fst r)) results))
                 queryText @ ''\<newline>'']"
    unfolding invokeCalls_passed [of similaritySearchWithScore queryText results, OF assms]
              ChatPromptTemplate_format_PROMPT_TEMPLATE contextText_separated
    by simp
  show "contextText [(\<lparr>pageContent = ''A'', metadata = ma\<rparr>, sa), (\<lparr>pageContent = ''B'', metadata = mb\<rparr>, sb)]
           = ''A\<newline>\<newline>---\<newline>\<newline>B''"
    by (simp add: contextText_separated)
qed

text \<open>
  An instance of C5: the second candidate scores 0.5, below the threshold, and its
  content is in the prompt all the same.
\<close>

theorem context_joins_all_candidates_witness:
  "invokeCalls (snd (queryDatabase
       (\<lambda>q k. Inr [(chunk ''A'', Num (9 / 10)), (chunk ''B'', Num (5 / 10))])
       ChatPromptTemplate_format (\<lambda>p. Inr ''fine'') (\<lambda>s. ''[]'') ''Q''))
   = [''Human: \<newline>Answer the question based only on the following context:\<newline>\<newline>A\<newline>\<newline>---\<newline>\<newline>B\<newline>\<newline>---\<newline>\<newline>Answer the question based on the above context: Q\<newline>'']"
proof -
  let ?results = "[(chunk ''A'', Num (9 / 10)), (chunk ''B'', Num (5 / 10))]"
  have s: "(\<lambda>q k. Inr ?results :: jserror + (Document \<times> number) list) ''Q'' 5 = Inr ?results"
    by simp
  have ne: "?results \<noteq> []" by simp
  have top: "\<not> js_lt (snd (hd ?results)) (Num (6 / 10))" by simp
  from context_joins_all_candidates [of "\<lambda>q k. Inr ?results" "''Q''" ?results, OF s ne top]
  show ?thesis by (simp add: chunk_def spec_prompt_def)
qed




end
